theory Spec2Isabelle
  imports Complex_Main
begin

section \<open>The order engine of the test store: data model\<close>

text \<open>
  The store keeps four SQLite tables (\<^verbatim>\<open>database.ts\<close>): users, products, orders and
  order_items. Tables with a TEXT PRIMARY KEY that the routes only read by key are maps from
  the key to the row; order_items, which the routes read with
  \<^verbatim>\<open>SELECT * FROM order_items WHERE order_id = ?\<close>, is the list of its rows in insertion order.
  The columns created_at and updated_at are left out: no route below reads them.

  An INTEGER column (stock, quantity) is an \<open>int\<close>; a price is a \<open>real\<close>, the finite double
  that the REAL column holds; a total is a \<open>jsnum\<close>, since the sum that the order route
  stores can be an infinity. Where a route adds or multiplies in JavaScript the model rounds as
  doubles do; the stock updates of the order routes are SQLite's, on integers, and the
  comparison of a stock with a quantity is the one of two whole numbers. The columns stock and
  shipping_address, which the schema lets be NULL, always hold a value here, as they do after
  every route below. The users' column
  \<^verbatim>\<open>name\<close> is \<open>user_name\<close>, the rows' columns \<^verbatim>\<open>id\<close> and \<^verbatim>\<open>price\<close> are \<open>item_id\<close> and
  \<open>item_price\<close>.
\<close>

subsection \<open>JavaScript numbers\<close>

text \<open>
  The routes compute with JavaScript numbers, which are IEEE 754 doubles: \<^verbatim>\<open>+\<close> and \<^verbatim>\<open>*\<close>
  give the double nearest to the exact result, the one with an even significand when two are
  equally near, and an infinity when that double would be \<open>2^1024\<close> or beyond. A \<open>jsnum\<close> is
  the value of a double: a real, an infinity or NaN (the two zeros are one value here: no route
  divides, and a comparison does not tell them apart).

  \<open>binade x\<close> is the exponent \<open>e\<close> with \<open>2^e \<le> |x| < 2^(e+1)\<close>. The doubles of that binade
  are the multiples of \<open>2^(e-52)\<close>, and below \<open>2^-1022\<close> the multiples of \<open>2^-1074\<close>.
\<close>

datatype jsnum = Num real | PosInf | NegInf | NaN

definition round_even :: "real \<Rightarrow> int" where
  "round_even x =
     (let f = \<lfloor>x\<rfloor>; r = x - of_int f
      in if r < 1 / 2 then f else if 1 / 2 < r then f + 1 else if even f then f else f + 1)"

definition binade :: "real \<Rightarrow> int" where
  "binade x = \<lfloor>log 2 \<bar>x\<bar>\<rfloor>"

definition quantum :: "real \<Rightarrow> int" where
  "quantum x = max (binade x - 52) (- 1074)"

definition to_double :: "real \<Rightarrow> jsnum" where
  "to_double x =
     (if x = 0 then Num 0
      else let k = quantum x;
               y = of_int (round_even (x / 2 powi k)) * 2 powi k
           in if 2 ^ 1024 \<le> \<bar>y\<bar> then (if 0 < x then PosInf else NegInf) else Num y)"

text \<open>\<^verbatim>\<open>a + b\<close> and \<^verbatim>\<open>a * b\<close> on numbers; the factors of the one product below are finite.\<close>

fun js_add :: "jsnum \<Rightarrow> jsnum \<Rightarrow> jsnum" where
  "js_add (Num x) (Num y) = to_double (x + y)"
| "js_add NaN b = NaN"
| "js_add a NaN = NaN"
| "js_add PosInf NegInf = NaN"
| "js_add NegInf PosInf = NaN"
| "js_add PosInf b = PosInf"
| "js_add a PosInf = PosInf"
| "js_add NegInf b = NegInf"
| "js_add a NegInf = NegInf"

definition js_mul :: "real \<Rightarrow> real \<Rightarrow> jsnum" where
  "js_mul x y = to_double (x * y)"

text \<open>An integer that is a double: reading it as a number changes nothing.\<close>

definition is_double :: "int \<Rightarrow> bool" where
  "is_double n = (to_double (of_int n) = Num (of_int n))"

subsection \<open>Tables\<close>

record user =
  email :: string
  user_name :: string
  password :: string
  role :: string

record product =
  name :: string
  description :: "string option"
  price :: real
  stock :: int
  category :: "string option"
  image_url :: "string option"

record order =
  user_id :: string
  status :: string
  total :: jsnum
  shipping_address :: string

text \<open>
  \<^verbatim>\<open>interface OrderItem { product_id: string; quantity: number }\<close> is an item of the request.
  The handler's array \<^verbatim>\<open>orderItems\<close> holds the same two fields and the price read from the
  catalog; a row of order_items adds its own id and the order's.
\<close>

record OrderItem =
  product_id :: string
  quantity :: int

record priced_item = OrderItem +
  item_price :: real

record order_item = priced_item +
  item_id :: string
  order_id :: string

record db =
  users :: "string \<rightharpoonup> user"
  products :: "string \<rightharpoonup> product"
  orders :: "string \<rightharpoonup> order"
  order_items :: "order_item list"

text \<open>
  What a handler answers when it does not answer with success: the kind of the failure and the
  text of the \<^verbatim>\<open>error\<close> field. \<open>NotFound\<close> is a 404, \<open>Failed\<close> the 500 of a handler's
  \<^verbatim>\<open>catch\<close>, every other kind a 400.
\<close>

datatype error =
  MissingFields
  | NotFound string
  | InsufficientStock string
  | InvalidStatus
  | CannotCancelDelivered
  | InvalidArgument
  | Failed string

text \<open>
  What a statement throws. The connection runs with \<^verbatim>\<open>foreign_keys = ON\<close>, so besides a
  repeated primary key a statement fails when it would leave a row that refers to a missing row.
  SQLite binds NaN as NULL, which \<^verbatim>\<open>total REAL NOT NULL\<close> refuses.
\<close>

datatype sql_error = PrimaryKeyViolation | ForeignKeyViolation | NotNullViolation

section \<open>Statements\<close>

text \<open>
  \<^verbatim>\<open>INSERT INTO orders (id, user_id, total, shipping_address, status) VALUES (...)\<close> and
  \<^verbatim>\<open>INSERT INTO order_items (id, order_id, product_id, quantity, price) VALUES (...)\<close>: the
  primary key \<^verbatim>\<open>id\<close> must be new, and the rows that the new row refers to must exist.
\<close>

definition insert_order :: "string \<Rightarrow> order \<Rightarrow> db \<Rightarrow> sql_error + db" where
  "insert_order oid row s =
     (if total row = NaN then Inl NotNullViolation
      else if orders s oid \<noteq> None then Inl PrimaryKeyViolation
      else if users s (user_id row) = None then Inl ForeignKeyViolation
      else Inr (s\<lparr>orders := (orders s)(oid \<mapsto> row)\<rparr>))"

definition insert_order_item :: "order_item \<Rightarrow> db \<Rightarrow> sql_error + db" where
  "insert_order_item row s =
     (if item_id row \<in> set (map item_id (order_items s)) then Inl PrimaryKeyViolation
      else if orders s (order_id row) = None \<or> products s (product_id row) = None
        then Inl ForeignKeyViolation
      else Inr (s\<lparr>order_items := order_items s @ [row]\<rparr>))"

text \<open>
  \<^verbatim>\<open>UPDATE products SET stock = stock + ? WHERE id = ?\<close>; the order handler's
  \<^verbatim>\<open>stock = stock - ?\<close> is the same statement with the quantity negated. An id that matches no
  row changes nothing and throws nothing.
\<close>

definition add_stock :: "int \<Rightarrow> string \<Rightarrow> db \<Rightarrow> db" where
  "add_stock n pid s =
     (case products s pid of
        None \<Rightarrow> s
      | Some p \<Rightarrow> s\<lparr>products := (products s)(pid \<mapsto> p\<lparr>stock := stock p + n\<rparr>)\<rparr>)"

text \<open>\<^verbatim>\<open>UPDATE products SET stock = ?, updated_at = CURRENT_TIMESTAMP WHERE id = ?\<close>.\<close>

definition set_stock :: "int \<Rightarrow> string \<Rightarrow> db \<Rightarrow> db" where
  "set_stock n pid s =
     (case products s pid of
        None \<Rightarrow> s
      | Some p \<Rightarrow> s\<lparr>products := (products s)(pid \<mapsto> p\<lparr>stock := n\<rparr>)\<rparr>)"

text \<open>
  \<^verbatim>\<open>DELETE FROM order_items WHERE order_id = ?\<close> and \<^verbatim>\<open>DELETE FROM orders WHERE id = ?\<close>.
  No table refers to order_items; an order that a row of order_items still refers to cannot be
  deleted.
\<close>

definition delete_order_items :: "string \<Rightarrow> db \<Rightarrow> db" where
  "delete_order_items oid s =
     s\<lparr>order_items := filter (\<lambda>r. order_id r \<noteq> oid) (order_items s)\<rparr>"

definition delete_order :: "string \<Rightarrow> db \<Rightarrow> sql_error + db" where
  "delete_order oid s =
     (if \<exists>r \<in> set (order_items s). order_id r = oid then Inl ForeignKeyViolation
      else Inr (s\<lparr>orders := (orders s)(oid := None)\<rparr>))"

text \<open>\<^verbatim>\<open>UPDATE orders SET status = ?, updated_at = CURRENT_TIMESTAMP WHERE id = ?\<close>.\<close>

definition set_status :: "string \<Rightarrow> string \<Rightarrow> db \<Rightarrow> db" where
  "set_status st oid s =
     (case orders s oid of
        None \<Rightarrow> s
      | Some row \<Rightarrow> s\<lparr>orders := (orders s)(oid \<mapsto> row\<lparr>status := st\<rparr>)\<rparr>)"

text \<open>
  \<^verbatim>\<open>db.transaction(fn)()\<close>: the statements of \<open>body\<close> run on the state; when one of them
  throws, the transaction is rolled back, which leaves the state of its beginning, and the
  exception goes on to the caller.
\<close>

definition transaction :: "(db \<Rightarrow> sql_error + db) \<Rightarrow> db \<Rightarrow> db \<times> sql_error option" where
  "transaction body s = (case body s of Inl e \<Rightarrow> (s, Some e) | Inr s' \<Rightarrow> (s', None))"

section \<open>The product routes\<close>

text \<open>
  \<^verbatim>\<open>PATCH /api/products/:id/stock\<close>. JavaScript gets the stock of the row and the quantity
  of the body as doubles, and \<^verbatim>\<open>existing.stock + quantity\<close> is their sum as doubles. The answer
  of a success is the pair of the id and the new stock. When the sum is \<^verbatim>\<open>-Infinity\<close> the
  comparison with 0 refuses it like any negative sum. When it is \<^verbatim>\<open>Infinity\<close> the route stores
  it; the stock of this model is an integer, and the model has no result there (\<open>None\<close>).
\<close>

definition adjustStock ::
  "db \<Rightarrow> string \<Rightarrow> int \<Rightarrow> (db \<times> (error + string \<times> int)) option" where
  "adjustStock s pid qty =
     (case products s pid of
        None \<Rightarrow> Some (s, Inl (NotFound ''Product not found''))
      | Some existing \<Rightarrow>
          (case js_add (to_double (of_int (stock existing))) (to_double (of_int qty)) of
             Num newStock \<Rightarrow>
               if newStock < 0 then Some (s, Inl (InsufficientStock ''Insufficient stock''))
               else Some (set_stock \<lfloor>newStock\<rfloor> pid s, Inr (pid, \<lfloor>newStock\<rfloor>))
           | NegInf \<Rightarrow> Some (s, Inl (InsufficientStock ''Insufficient stock''))
           | PosInf \<Rightarrow> None
           | NaN \<Rightarrow> None))"

text \<open>
  \<^verbatim>\<open>PUT /api/products/:id\<close>. A field that the body leaves out is bound as NULL, and
  \<^verbatim>\<open>COALESCE(?, column)\<close> then keeps the column.
\<close>

record product_update =
  new_name :: "string option"
  new_description :: "string option"
  new_price :: "real option"
  new_stock :: "int option"
  new_category :: "string option"
  new_image_url :: "string option"

definition coalesce :: "'a option \<Rightarrow> 'a \<Rightarrow> 'a" where
  "coalesce v old = (case v of None \<Rightarrow> old | Some x \<Rightarrow> x)"

definition coalesce_opt :: "'a option \<Rightarrow> 'a option \<Rightarrow> 'a option" where
  "coalesce_opt v old = (case v of None \<Rightarrow> old | Some x \<Rightarrow> Some x)"

definition updateProduct :: "db \<Rightarrow> string \<Rightarrow> product_update \<Rightarrow> db \<times> (error + product option)" where
  "updateProduct s pid u =
     (case products s pid of
        None \<Rightarrow> (s, Inl (NotFound ''Product not found''))
      | Some existing \<Rightarrow>
          if (case new_price u of None \<Rightarrow> False | Some pr \<Rightarrow> pr < 0)
          then (s, Inl InvalidArgument)
          else
            (let s' = s\<lparr>products := (products s)(pid \<mapsto>
                   \<lparr>name = coalesce (new_name u) (name existing),
                    description = coalesce_opt (new_description u) (description existing),
                    price = coalesce (new_price u) (price existing),
                    stock = coalesce (new_stock u) (stock existing),
                    category = coalesce_opt (new_category u) (category existing),
                    image_url = coalesce_opt (new_image_url u) (image_url existing)\<rparr>)\<rparr>
             in (s', Inr (products s' pid))))"

section \<open>The order routes\<close>

text \<open>
  The loop of \<^verbatim>\<open>POST /api/orders\<close> that reads every item's product, with its two
  accumulators \<^verbatim>\<open>total\<close> and \<^verbatim>\<open>orderItems\<close>. It returns at the first item whose product is
  missing or whose stock is below the quantity; it writes nothing.
  \<^verbatim>\<open>total += product.price * item.quantity\<close> is a product and a sum of doubles.
\<close>

fun validate_items ::
  "db \<Rightarrow> OrderItem list \<Rightarrow> jsnum \<Rightarrow> priced_item list
     \<Rightarrow> error + jsnum \<times> priced_item list" where
  "validate_items s [] tot orderItems = Inr (tot, orderItems)"
| "validate_items s (item # rest) tot orderItems =
     (case products s (product_id item) of
        None \<Rightarrow> Inl (NotFound (''Product not found: '' @ product_id item))
      | Some p \<Rightarrow>
          if stock p < quantity item
          then Inl (InsufficientStock (''Insufficient stock for product: '' @ name p))
          else validate_items s rest
                 (js_add tot (js_mul (price p) (of_int (quantity item))))
                 (orderItems @ [\<lparr>product_id = product_id item, quantity = quantity item,
                                 item_price = price p\<rparr>]))"

text \<open>
  The loop inside the transaction: one row of order_items and one stock update for each
  element of \<^verbatim>\<open>orderItems\<close>. \<open>uuid k\<close> is what the \<open>k\<close>-th call of \<^verbatim>\<open>uuidv4()\<close> of the
  request returns: call 0 names the order, call \<open>k + 1\<close> the row of item \<open>k\<close>.
\<close>

fun insert_items ::
  "(nat \<Rightarrow> string) \<Rightarrow> nat \<Rightarrow> string \<Rightarrow> priced_item list \<Rightarrow> db \<Rightarrow> sql_error + db" where
  "insert_items uuid k orderId [] s = Inr s"
| "insert_items uuid k orderId (item # rest) s =
     (case insert_order_item
             \<lparr>product_id = product_id item, quantity = quantity item,
              item_price = item_price item, item_id = uuid k, order_id = orderId\<rparr> s of
        Inl e \<Rightarrow> Inl e
      | Inr s1 \<Rightarrow> insert_items uuid (Suc k) orderId rest
                   (add_stock (- quantity item) (product_id item) s1))"

definition createOrder_tx ::
  "(nat \<Rightarrow> string) \<Rightarrow> string \<Rightarrow> jsnum \<Rightarrow> string \<Rightarrow> priced_item list \<Rightarrow> db
     \<Rightarrow> sql_error + db" where
  "createOrder_tx uuid uid tot addr orderItems s =
     (case insert_order (uuid 0)
             \<lparr>user_id = uid, status = ''pending'', total = tot, shipping_address = addr\<rparr> s of
        Inl e \<Rightarrow> Inl e
      | Inr s1 \<Rightarrow> insert_items uuid (Suc 0) (uuid 0) orderItems s1)"

text \<open>
  \<^verbatim>\<open>POST /api/orders\<close>. A user id or a list of items that the body leaves out is the empty
  string or the empty list, which the first test refuses like the absent one; a shipping
  address that it leaves out is \<open>None\<close>. A success answers with the new id and the row that
  the last SELECT finds under it.
\<close>

definition createOrder ::
  "db \<Rightarrow> (nat \<Rightarrow> string) \<Rightarrow> string \<Rightarrow> OrderItem list \<Rightarrow> string option
     \<Rightarrow> db \<times> (error + string \<times> order option)" where
  "createOrder s uuid uid items addr =
     (if uid = [] \<or> items = [] then (s, Inl MissingFields)
      else case users s uid of
        None \<Rightarrow> (s, Inl (NotFound ''User not found''))
      | Some u \<Rightarrow>
          (case validate_items s items (Num 0) [] of
             Inl e \<Rightarrow> (s, Inl e)
           | Inr (tot, orderItems) \<Rightarrow>
               (case transaction
                       (createOrder_tx uuid uid tot (coalesce addr []) orderItems) s of
                  (s', Some e) \<Rightarrow> (s', Inl (Failed ''Failed to create order''))
                | (s', None) \<Rightarrow> (s', Inr (uuid 0, orders s' (uuid 0))))))"

definition validStatuses :: "string list" where
  "validStatuses = [''pending'', ''processing'', ''shipped'', ''delivered'', ''cancelled'']"

text \<open>
  \<^verbatim>\<open>PATCH /api/orders/:id/status\<close>. The route reads the requested status and the order's
  existence, nothing else; it answers with the row after the update.
\<close>

definition updateStatus :: "db \<Rightarrow> string \<Rightarrow> string \<Rightarrow> db \<times> (error + order option)" where
  "updateStatus s oid st =
     (if st = [] \<or> st \<notin> set validStatuses then (s, Inl InvalidStatus)
      else case orders s oid of
        None \<Rightarrow> (s, Inl (NotFound ''Order not found''))
      | Some existing \<Rightarrow>
          (let s' = set_status st oid s in (s', Inr (orders s' oid))))"

text \<open>\<^verbatim>\<open>DELETE /api/orders/:id\<close> and its transaction.\<close>

definition cancelOrder_tx :: "string \<Rightarrow> db \<Rightarrow> sql_error + db" where
  "cancelOrder_tx oid s =
     (let items = filter (\<lambda>r. order_id r = oid) (order_items s);
          s1 = fold (\<lambda>item. add_stock (quantity item) (product_id item)) items s;
          s2 = delete_order_items oid s1
      in delete_order oid s2)"

definition cancelOrder :: "db \<Rightarrow> string \<Rightarrow> db \<times> (error + unit)" where
  "cancelOrder s oid =
     (case orders s oid of
        None \<Rightarrow> (s, Inl (NotFound ''Order not found''))
      | Some ord \<Rightarrow>
          if status ord = ''delivered'' then (s, Inl CannotCancelDelivered)
          else (case transaction (cancelOrder_tx oid) s of
                  (s', Some e) \<Rightarrow> (s', Inl (Failed ''Failed to cancel order''))
                | (s', None) \<Rightarrow> (s', Inr ())))"

text \<open>
  \<^verbatim>\<open>GET /api/orders/:id\<close>: the order's row and its items. The columns that the route joins
  in for display (the user's name and email, the products' names) are left out.
\<close>

definition getOrder :: "db \<Rightarrow> string \<Rightarrow> error + order \<times> order_item list" where
  "getOrder s oid =
     (case orders s oid of
        None \<Rightarrow> Inl (NotFound ''Order not found'')
      | Some ord \<Rightarrow> Inr (ord, filter (\<lambda>r. order_id r = oid) (order_items s)))"

section \<open>Notions used to state the properties\<close>

text \<open>
  The quantity that a list of items (of the request, of \<^verbatim>\<open>orderItems\<close> or of rows) asks of one
  product: the sum over the items that name it. A product named by one item gets that item's
  quantity.
\<close>

definition qty_of :: "string \<Rightarrow> ('a OrderItem_scheme) list \<Rightarrow> int" where
  "qty_of pid items = sum_list (map quantity (filter (\<lambda>i. product_id i = pid) items))"

text \<open>The catalog with \<open>d pid\<close> added to the stock of every product \<open>pid\<close>.\<close>

definition shift_stock :: "(string \<Rightarrow> int) \<Rightarrow> (string \<rightharpoonup> product) \<Rightarrow> (string \<rightharpoonup> product)" where
  "shift_stock d ps = (\<lambda>pid. map_option (\<lambda>p. p\<lparr>stock := stock p + d pid\<rparr>) (ps pid))"

text \<open>
  The sum of price times quantity over priced items as doubles add it up: from \<open>t\<close>, item
  after item, each product and each sum rounded.
\<close>

definition add_line :: "jsnum \<Rightarrow> 'a priced_item_scheme \<Rightarrow> jsnum" where
  "add_line t r = js_add t (js_mul (item_price r) (of_int (quantity r)))"

definition line_total :: "('a priced_item_scheme) list \<Rightarrow> jsnum" where
  "line_total rows = foldl add_line (Num 0) rows"

text \<open>
  The same sum over the items of a request, each at the price that the catalog of state \<open>s\<close>
  has for its product.
\<close>

definition add_item :: "db \<Rightarrow> jsnum \<Rightarrow> OrderItem \<Rightarrow> jsnum" where
  "add_item s t i =
     (case products s (product_id i) of
        None \<Rightarrow> t
      | Some p \<Rightarrow> js_add t (js_mul (price p) (of_int (quantity i))))"

definition double_total :: "db \<Rightarrow> OrderItem list \<Rightarrow> jsnum" where
  "double_total s items = foldl (add_item s) (Num 0) items"



text \<open>An item passes the loop's two checks: its product exists and has the stock.\<close>

definition item_ok :: "db \<Rightarrow> 'a OrderItem_scheme \<Rightarrow> bool" where
  "item_ok s item =
     (case products s (product_id item) of None \<Rightarrow> False | Some p \<Rightarrow> quantity item \<le> stock p)"

text \<open>
  \<open>snapshot_of\<close> relates an item of the request to its element of \<^verbatim>\<open>orderItems\<close>, \<open>row_of\<close>
  that element to its row, and \<open>line_of\<close> the item to the row: same product, same quantity, the
  price of the catalog of \<open>s\<close>, the order's id.
\<close>

definition snapshot_of :: "db \<Rightarrow> OrderItem \<Rightarrow> 'a priced_item_scheme \<Rightarrow> bool" where
  "snapshot_of s item row =
     (product_id row = product_id item \<and> quantity row = quantity item \<and>
      (case products s (product_id item) of
         None \<Rightarrow> False
       | Some p \<Rightarrow> item_price row = price p \<and> quantity item \<le> stock p))"

definition row_of :: "string \<Rightarrow> 'a priced_item_scheme \<Rightarrow> order_item \<Rightarrow> bool" where
  "row_of oid item row =
     (product_id row = product_id item \<and> quantity row = quantity item \<and>
      item_price row = item_price item \<and> order_id row = oid)"

definition line_of :: "db \<Rightarrow> string \<Rightarrow> OrderItem \<Rightarrow> order_item \<Rightarrow> bool" where
  "line_of s oid item row =
     (product_id row = product_id item \<and> quantity row = quantity item \<and> order_id row = oid \<and>
      (case products s (product_id item) of
         None \<Rightarrow> False
       | Some p \<Rightarrow> item_price row = price p \<and> quantity item \<le> stock p))"

text \<open>The rows of one order.\<close>

definition order_rows :: "db \<Rightarrow> string \<Rightarrow> order_item list" where
  "order_rows s oid = filter (\<lambda>r. order_id r = oid) (order_items s)"

text \<open>
  The foreign key \<^verbatim>\<open>FOREIGN KEY (order_id) REFERENCES orders(id)\<close> as a property of a state:
  every row of order_items belongs to an order that exists. The statements above refuse to
  break it, and every route keeps it (lemmas \<open>no_orphan_\<close>\<dots> below).
\<close>

definition no_orphan_items :: "db \<Rightarrow> bool" where
  "no_orphan_items s = list_all (\<lambda>r. orders s (order_id r) \<noteq> None) (order_items s)"

text \<open>
  The ids that \<^verbatim>\<open>uuidv4()\<close> hands to a request with \<open>n\<close> items are new: the order's id names
  no order, the rows' ids differ from each other and from the ids of the rows there are.
\<close>

definition fresh_ids :: "db \<Rightarrow> (nat \<Rightarrow> string) \<Rightarrow> nat \<Rightarrow> bool" where
  "fresh_ids s uuid n =
     (orders s (uuid 0) = None \<and> distinct (map uuid [1..<Suc n]) \<and>
      list_all (\<lambda>k. uuid k \<notin> set (map item_id (order_items s))) [1..<Suc n])"

text \<open>Every product of the catalog has a stock of zero or more.\<close>

definition stock_nonneg :: "db \<Rightarrow> bool" where
  "stock_nonneg s = (\<forall>pid p. products s pid = Some p \<longrightarrow> 0 \<le> stock p)"

text \<open>
  Requests for the same items by the same user, served one after another, each with its own
  ids from \<^verbatim>\<open>uuidv4()\<close>. The handlers are synchronous: the server ends one request before
  it begins the next. The result is the last state and the answers in the order of the
  requests.
\<close>

fun place_orders ::
  "db \<Rightarrow> (nat \<Rightarrow> string) list \<Rightarrow> string \<Rightarrow> OrderItem list
     \<Rightarrow> db \<times> (error + string \<times> order option) list" where
  "place_orders s [] uid items = (s, [])"
| "place_orders s (uuid # later) uid items =
     (case createOrder s uuid uid items None of
        (s1, answer) \<Rightarrow>
          (case place_orders s1 later uid items of
             (s2, answers) \<Rightarrow> (s2, answer # answers)))"

section \<open>A small shop, for the examples\<close>

text \<open>
  The data of the API tests, with round prices: one customer, a laptop with ten pieces in
  stock and a shirt with fifty.
\<close>

definition customer :: user where
  "customer = \<lparr>email = ''customer@test.com'', user_name = ''Test Customer'',
               password = ''customer123'', role = ''user''\<rparr>"

definition laptop :: product where
  "laptop = \<lparr>name = ''Test Laptop'', description = Some ''A test laptop for automation'',
             price = 1000, stock = 10, category = Some ''electronics'', image_url = None\<rparr>"

definition shirt :: product where
  "shirt = \<lparr>name = ''Test Shirt'', description = Some ''A test shirt'',
            price = 30, stock = 50, category = Some ''clothing'', image_url = None\<rparr>"

definition shop :: db where
  "shop = \<lparr>users = [''u1'' \<mapsto> customer],
           products = [''p2'' \<mapsto> shirt, ''p1'' \<mapsto> laptop],
           orders = Map.empty, order_items = []\<rparr>"

text \<open>\<open>uuids xs\<close> hands out the ids of the list \<open>xs\<close>, in this order.\<close>

definition uuids :: "string list \<Rightarrow> nat \<Rightarrow> string" where
  "uuids xs k = (if k < length xs then xs ! k else [])"

definition line :: "string \<Rightarrow> int \<Rightarrow> OrderItem" where
  "line pid q = \<lparr>product_id = pid, quantity = q\<rparr>"

text \<open>The shop after an order of six laptops twice, in two items of one request.\<close>

definition oversold :: db where
  "oversold =
     shop\<lparr>products := [''p2'' \<mapsto> shirt, ''p1'' \<mapsto> laptop\<lparr>stock := - 2\<rparr>],
          orders := [''o1'' \<mapsto> \<lparr>user_id = ''u1'', status = ''pending'', total = Num 12000,
                                shipping_address = []\<rparr>],
          order_items :=
            [\<lparr>product_id = ''p1'', quantity = 6, item_price = 1000,
              item_id = ''i1'', order_id = ''o1''\<rparr>,
             \<lparr>product_id = ''p1'', quantity = 6, item_price = 1000,
              item_id = ''i2'', order_id = ''o1''\<rparr>]\<rparr>"

text \<open>The shop after an order of five laptops, and the same with the order delivered.\<close>

definition five_laptops :: order where
  "five_laptops = \<lparr>user_id = ''u1'', status = ''pending'', total = Num 5000,
                    shipping_address = ''123 Test St''\<rparr>"

definition shop_open :: db where
  "shop_open =
     shop\<lparr>products := [''p2'' \<mapsto> shirt, ''p1'' \<mapsto> laptop\<lparr>stock := 5\<rparr>],
          orders := [''o1'' \<mapsto> five_laptops],
          order_items :=
            [\<lparr>product_id = ''p1'', quantity = 5, item_price = 1000,
              item_id = ''i1'', order_id = ''o1''\<rparr>]\<rparr>"

text \<open>
  The shop with \<open>2^53 - 1\<close> laptops in stock, and a kiosk whose one product costs the double
  that \<^verbatim>\<open>0.1\<close> is in JavaScript, \<open>3602879701896397 / 2^55\<close>.
\<close>

definition big_shop :: db where
  "big_shop = shop\<lparr>products := [''p2'' \<mapsto> shirt, ''p1'' \<mapsto> laptop\<lparr>stock := 9007199254740991\<rparr>]\<rparr>"

definition dime :: product where
  "dime = \<lparr>name = ''Test Sweet'', description = None,
           price = 3602879701896397 / 36028797018963968, stock = 10,
           category = None, image_url = None\<rparr>"


definition shop_delivered :: db where
  "shop_delivered = shop_open\<lparr>orders := [''o1'' \<mapsto> five_laptops\<lparr>status := ''delivered''\<rparr>]\<rparr>"

section \<open>Doubles\<close>

lemma round_even_of_int [simp]: "round_even (of_int m) = m"
  by (simp add: round_even_def)

lemma two_powr_int: "(2::real) powr real_of_int e = 2 powi e"
  by (simp add: powr_real_of_int')

lemma two_powr_int_Suc: "(2::real) powr (real_of_int e + 1) = 2 powi (e + 1)"
proof -
  have "real_of_int e + 1 = real_of_int (e + 1)" by simp
  then show ?thesis by (simp only: two_powr_int)
qed

lemma binade_iff:
  assumes "x \<noteq> 0"
  shows "binade x = e \<longleftrightarrow> 2 powi e \<le> \<bar>x\<bar> \<and> \<bar>x\<bar> < 2 powi (e + 1)"
proof -
  have pos: "0 < \<bar>x\<bar>" using assms by simp
  show ?thesis
    unfolding binade_def using floor_log_eq_powr_iff [OF pos, of 2 e]
    by (simp only: two_powr_int two_powr_int_Suc)
qed

lemma binade_eqI:
  assumes "x \<noteq> 0" "2 powi e \<le> \<bar>x\<bar>" "\<bar>x\<bar> < 2 powi (e + 1)"
  shows "binade x = e"
  using binade_iff [OF assms(1)] assms(2,3) by blast

lemma binade_bounds:
  assumes "x \<noteq> 0"
  shows "2 powi binade x \<le> \<bar>x\<bar>" "\<bar>x\<bar> < 2 powi (binade x + 1)"
  using binade_iff [OF assms, of "binade x"] by simp_all

text \<open>Rounding a number whose binade is known.\<close>

lemma to_double_eval:
  assumes "x \<noteq> 0" "2 powi e \<le> \<bar>x\<bar>" "\<bar>x\<bar> < 2 powi (e + 1)"
  shows "to_double x =
     (let k = max (e - 52) (- 1074);
          y = of_int (round_even (x / 2 powi k)) * 2 powi k
      in if 2 ^ 1024 \<le> \<bar>y\<bar> then (if 0 < x then PosInf else NegInf) else Num y)"
  using assms(1) by (simp add: to_double_def quantum_def binade_eqI [OF assms])

lemma to_double_not_NaN [simp]: "to_double x \<noteq> NaN"
  by (simp add: to_double_def Let_def)

lemma to_double_fixed:
  assumes "x / 2 powi quantum x = of_int m" "\<bar>x\<bar> < 2 ^ 1024"
  shows "to_double x = Num x"
proof (cases "x = 0")
  case True
  then show ?thesis by (simp add: to_double_def)
next
  case False
  have nz: "(2::real) powi quantum x \<noteq> 0" by simp
  from assms(1) have "of_int m * 2 powi quantum x = x"
    using nz by (simp add: field_simps)
  with False assms show ?thesis
    by (simp add: to_double_def Let_def)
qed

text \<open>Every integer up to \<open>2^53\<close> in absolute value is a double.\<close>

lemma to_double_int_exact:
  assumes "\<bar>n\<bar> \<le> 2 ^ 53"
  shows "to_double (of_int n) = Num (of_int n)"
proof (cases "n = 0")
  case True
  then show ?thesis by (simp add: to_double_def)
next
  case False
  let ?x = "real_of_int n"
  have nz: "?x \<noteq> 0" using False by simp
  note b = binade_bounds [OF nz]
  have abs_le: "\<bar>?x\<bar> \<le> 2 ^ 53"
    using assms by (metis of_int_abs of_int_le_iff of_int_numeral of_int_power)
  have e_ub: "binade ?x \<le> 53"
  proof (rule ccontr)
    assume "\<not> binade ?x \<le> 53"
    then have "54 \<le> binade ?x" by simp
    then have "(2::real) powi 54 \<le> 2 powi binade ?x"
      by (intro power_int_increasing) simp_all
    with b(1) abs_le show False by (simp add: power_int_def)
  qed
  have e_lb: "0 \<le> binade ?x"
  proof (rule ccontr)
    assume "\<not> 0 \<le> binade ?x"
    then have "binade ?x + 1 \<le> 0" by simp
    then have "(2::real) powi (binade ?x + 1) \<le> 2 powi 0"
      by (intro power_int_increasing) simp_all
    with b(2) have "\<bar>?x\<bar> < 1" by simp
    then have "\<bar>n\<bar> < 1" by (metis of_int_abs of_int_less_iff of_int_1)
    with False show False by simp
  qed
  have q: "quantum ?x = binade ?x - 52"
    using e_lb by (simp add: quantum_def)
  have lt: "\<bar>?x\<bar> < 2 ^ 1024"
  proof -
    have "(2::real) ^ 53 < 2 ^ 1024" by (intro power_strict_increasing) simp_all
    with abs_le show ?thesis by linarith
  qed
  show ?thesis
  proof (cases "binade ?x \<le> 52")
    case True
    then have "(2::real) powi (binade ?x - 52) = inverse (2 ^ nat (52 - binade ?x))"
      by (cases "binade ?x = 52") (simp_all add: power_int_def power_one_over inverse_eq_divide)
    then have "?x / 2 powi quantum ?x = of_int (n * 2 ^ nat (52 - binade ?x))"
      by (simp add: q field_simps)
    from to_double_fixed [OF this lt] show ?thesis .
  next
    case False
    with e_ub have e: "binade ?x = 53" by simp
    with b(1) have "2 ^ 53 \<le> \<bar>?x\<bar>" by (simp add: power_int_def)
    with abs_le have "\<bar>?x\<bar> = 2 ^ 53" by simp
    then have "\<bar>n\<bar> = 2 ^ 53"
      by (metis of_int_abs of_int_eq_iff of_int_numeral of_int_power)
    then have "n = 2 ^ 53 \<or> n = - (2 ^ 53)" by linarith
    then have "?x / 2 powi quantum ?x = of_int (n div 2)"
      by (auto simp: q e)
    from to_double_fixed [OF this lt] show ?thesis .
  qed
qed

lemma is_double_small: "\<bar>n\<bar> \<le> 2 ^ 53 \<Longrightarrow> is_double n"
  by (simp add: is_double_def to_double_int_exact)

lemma to_double_numeral [simp]:
  "numeral w \<le> (2::int) ^ 53 \<Longrightarrow> to_double (numeral w) = Num (numeral w)"
  "numeral w \<le> (2::int) ^ 53 \<Longrightarrow> to_double (- numeral w) = Num (- numeral w)"
  "to_double 0 = Num 0" "to_double 1 = Num 1"
  using to_double_int_exact [of "numeral w"] to_double_int_exact [of "- numeral w"]
    to_double_int_exact [of 0] to_double_int_exact [of 1]
  by simp_all

lemma js_add_to_double_not_NaN [simp]: "js_add (Num x) (to_double y) \<noteq> NaN"
  by (cases "to_double y") simp_all

lemma js_add_zero_mul_not_NaN [simp]: "js_add (Num x) (js_mul a b) \<noteq> NaN"
  by (simp add: js_mul_def)

section \<open>What the statements and the loops do\<close>

lemma qty_of_Nil [simp]: "qty_of pid [] = 0"
  by (simp add: qty_of_def)

lemma qty_of_Cons [simp]:
  "qty_of pid (i # items) = (if pid = product_id i then quantity i else 0) + qty_of pid items"
  by (auto simp add: qty_of_def)

lemma qty_of_append [simp]: "qty_of pid (xs @ ys) = qty_of pid xs + qty_of pid ys"
  by (simp add: qty_of_def)

lemma shift_stock_zero [simp]: "shift_stock (\<lambda>_. 0) ps = ps"
  by (rule ext) (simp add: shift_stock_def option.map_ident)

lemma shift_stock_shift:
  "shift_stock d (shift_stock e ps) = shift_stock (\<lambda>pid. e pid + d pid) ps"
  by (rule ext) (simp add: shift_stock_def option.map_comp comp_def add.assoc)

lemma products_add_stock:
  "products (add_stock n pid s) = shift_stock (\<lambda>q. if q = pid then n else 0) (products s)"
  by (rule ext) (auto simp add: add_stock_def shift_stock_def option.map_ident split: option.split)

lemma add_stock_others [simp]:
  "users (add_stock n pid s) = users s"
  "orders (add_stock n pid s) = orders s"
  "order_items (add_stock n pid s) = order_items s"
  by (simp_all add: add_stock_def split: option.split)

lemma fold_add_stock_others [simp]:
  "users (fold (\<lambda>item. add_stock (quantity item) (product_id item)) rows s) = users s"
  "orders (fold (\<lambda>item. add_stock (quantity item) (product_id item)) rows s) = orders s"
  "order_items (fold (\<lambda>item. add_stock (quantity item) (product_id item)) rows s) = order_items s"
  by (induction rows arbitrary: s; simp)+

lemma fold_add_stock_products:
  "products (fold (\<lambda>item. add_stock (quantity item) (product_id item)) rows s)
     = shift_stock (\<lambda>pid. qty_of pid rows) (products s)"
proof (induction rows arbitrary: s)
  case Nil
  show ?case by simp
next
  case (Cons r rows)
  show ?case
    by (simp add: Cons.IH products_add_stock shift_stock_shift) 
qed

lemma add_line_simps [simp]:
  "add_line t \<lparr>product_id = pid, quantity = q, item_price = pr, \<dots> = z\<rparr>
     = js_add t (js_mul pr (of_int q))"
  by (simp add: add_line_def)

lemma validate_items_Inr:
  "validate_items s items tot acc = Inr (t, xs) \<Longrightarrow>
     \<exists>new. xs = acc @ new \<and> list_all2 (snapshot_of s) items new \<and> t = foldl add_line tot new"
proof (induction items arbitrary: tot acc)
  case Nil
  then show ?case by simp
next
  case (Cons item rest)
  from Cons.prems obtain p where p: "products s (product_id item) = Some p"
    by (auto split: option.splits)
  with Cons.prems have ok: "\<not> stock p < quantity item"
    by (auto split: if_splits)
  let ?x = "\<lparr>product_id = product_id item, quantity = quantity item, item_price = price p\<rparr>"
  from Cons.prems p ok
  have "validate_items s rest (add_line tot ?x) (acc @ [?x]) = Inr (t, xs)"
    by simp
  from Cons.IH [OF this] obtain new where
    new: "xs = (acc @ [?x]) @ new" "list_all2 (snapshot_of s) rest new"
         "t = foldl add_line (add_line tot ?x) new"
    by blast
  have "snapshot_of s item ?x"
    using p ok by (simp add: snapshot_of_def)
  with new show ?case
    by (intro exI [of _ "?x # new"]) simp
qed

lemma validate_items_ok:
  "list_all (item_ok s) items \<Longrightarrow> \<exists>t xs. validate_items s items tot acc = Inr (t, xs)"
  by (induction items arbitrary: tot acc) (auto simp: item_ok_def split: option.splits)

lemma insert_order_item_Inr:
  "insert_order_item row s = Inr s' \<Longrightarrow>
     s' = s\<lparr>order_items := order_items s @ [row]\<rparr> \<and> item_id row \<notin> item_id ` set (order_items s)"
  by (auto simp: insert_order_item_def split: if_splits)

lemma insert_items_Inr:
  "insert_items uuid k oid items s = Inr s' \<Longrightarrow>
     \<exists>rows. order_items s' = order_items s @ rows
        \<and> list_all2 (row_of oid) items rows
        \<and> map item_id rows = map uuid [k..<k + length items]
        \<and> products s' = shift_stock (\<lambda>pid. - qty_of pid items) (products s)
        \<and> orders s' = orders s \<and> users s' = users s"
proof (induction items arbitrary: k s)
  case Nil
  then show ?case by simp
next
  case (Cons item rest)
  let ?row = "\<lparr>product_id = product_id item, quantity = quantity item,
              item_price = item_price item, item_id = uuid k, order_id = oid\<rparr>"
  from Cons.prems obtain s1 where s1: "insert_order_item ?row s = Inr s1"
    by (auto split: sum.splits)
  let ?s2 = "add_stock (- quantity item) (product_id item) s1"
  from Cons.prems s1 have "insert_items uuid (Suc k) oid rest ?s2 = Inr s'"
    by simp
  from Cons.IH [OF this] obtain rows where rows:
    "order_items s' = order_items ?s2 @ rows"
    "list_all2 (row_of oid) rest rows"
    "map item_id rows = map uuid [Suc k..<Suc k + length rest]"
    "products s' = shift_stock (\<lambda>pid. - qty_of pid rest) (products ?s2)"
    "orders s' = orders ?s2" "users s' = users ?s2"
    by blast
  from insert_order_item_Inr [OF s1]
  have s1_eq: "s1 = s\<lparr>order_items := order_items s @ [?row]\<rparr>" by simp
  have "order_items s' = order_items s @ (?row # rows)"
    using rows(1) s1_eq by simp
  moreover have "list_all2 (row_of oid) (item # rest) (?row # rows)"
    using rows(2) by (simp add: row_of_def)
  moreover have "map item_id (?row # rows) = map uuid [k..<k + length (item # rest)]"
    using rows(3) by (simp del: upt_Suc add: upt_conv_Cons)
  moreover have "products s' = shift_stock (\<lambda>pid. - qty_of pid (item # rest)) (products s)"
    using rows(4) s1_eq
    by (simp add: products_add_stock shift_stock_shift if_distrib [of uminus] cong: if_cong) 
  moreover have "orders s' = orders s" "users s' = users s"
    using rows(5,6) s1_eq by simp_all
  ultimately show ?case by blast
qed

lemma add_stock_products_None [simp]:
  "products (add_stock n pid s) q = None \<longleftrightarrow> products s q = None"
  by (simp add: add_stock_def split: option.split)

lemma insert_items_fresh:
  assumes "orders s oid \<noteq> None"
    and "list_all (\<lambda>i. products s (product_id i) \<noteq> None) items"
    and "distinct (map uuid [k..<k + length items])"
    and "uuid ` {k..<k + length items} \<inter> item_id ` set (order_items s) = {}"
  shows "\<exists>s'. insert_items uuid k oid items s = Inr s'"
  using assms
proof (induction items arbitrary: k s)
  case Nil
  show ?case by simp
next
  case (Cons item rest)
  let ?row = "\<lparr>product_id = product_id item, quantity = quantity item,
              item_price = item_price item, item_id = uuid k, order_id = oid\<rparr>"
  let ?s1 = "s\<lparr>order_items := order_items s @ [?row]\<rparr>"
  let ?s2 = "add_stock (- quantity item) (product_id item) ?s1"
  have up: "[k..<k + length (item # rest)] = k # [Suc k..<Suc k + length rest]"
    by (simp del: upt_Suc add: upt_conv_Cons)
  have k_in: "k \<in> {k..<k + length (item # rest)}" by simp
  with Cons.prems(4) have fresh_k: "uuid k \<notin> item_id ` set (order_items s)" by blast
  with Cons.prems(1,2) have ins: "insert_order_item ?row s = Inr ?s1"
    by (simp add: insert_order_item_def)
  have "orders ?s2 oid \<noteq> None" using Cons.prems(1) by simp
  moreover have "list_all (\<lambda>i. products ?s2 (product_id i) \<noteq> None) rest"
    using Cons.prems(2) by simp
  moreover have d: "distinct (map uuid [Suc k..<Suc k + length rest])" 
    and nk: "uuid k \<notin> uuid ` {Suc k..<Suc k + length rest}"
    using Cons.prems(3) unfolding up by auto
  moreover have "uuid ` {Suc k..<Suc k + length rest} \<inter> item_id ` set (order_items ?s2) = {}"
  proof -
    have "{Suc k..<Suc k + length rest} \<subseteq> {k..<k + length (item # rest)}" by auto
    with Cons.prems(4) have "uuid ` {Suc k..<Suc k + length rest} \<inter> item_id ` set (order_items s) = {}"
      by blast
    with nk show ?thesis by auto
  qed
  ultimately obtain s' where "insert_items uuid (Suc k) oid rest ?s2 = Inr s'"
    using Cons.IH by blast
  with ins show ?case by simp
qed

lemma row_of_foldl:
  "list_all2 (row_of oid) items rows \<Longrightarrow> \<forall>t. foldl add_line t rows = foldl add_line t items"
  by (induction rule: list_all2_induct) (simp_all add: row_of_def add_line_def)

lemma row_of_line_total:
  "list_all2 (row_of oid) items rows \<Longrightarrow> line_total rows = line_total items"
  by (simp add: line_total_def row_of_foldl)

lemma row_of_qty_of:
  "list_all2 (row_of oid) items rows \<Longrightarrow> qty_of pid rows = qty_of pid items"
  by (induction rule: list_all2_induct) (simp_all add: row_of_def)

lemma snapshot_of_qty_of:
  "list_all2 (snapshot_of s) items new \<Longrightarrow> qty_of pid new = qty_of pid items"
  by (induction rule: list_all2_induct) (simp_all add: snapshot_of_def)


lemma line_of_order_id:
  "list_all2 (line_of s oid) items rows \<Longrightarrow> \<forall>r \<in> set rows. order_id r = oid"
  by (induction rule: list_all2_induct) (simp_all add: line_of_def)

lemma snapshot_row_line:
  "list_all2 (snapshot_of s) items new \<Longrightarrow> list_all2 (row_of oid) new rows \<Longrightarrow>
     list_all2 (line_of s oid) items rows"
  by (erule list_all2_trans [rotated], assumption)
     (auto simp: snapshot_of_def row_of_def line_of_def split: option.splits)

lemma createOrder_failure:
  "snd (createOrder s uuid uid items addr) = Inl e \<Longrightarrow> fst (createOrder s uuid uid items addr) = s"
  by (auto simp: createOrder_def transaction_def split: if_splits option.splits sum.splits prod.splits)

lemma createOrder_success:
  assumes "createOrder s uuid uid items addr = (s', Inr r)"
  shows "\<exists>rows ord.
           ord = \<lparr>user_id = uid, status = ''pending'', total = line_total rows,
                  shipping_address = coalesce addr []\<rparr>
         \<and> r = (uuid 0, Some ord)
         \<and> s' = s\<lparr>products := shift_stock (\<lambda>pid. - qty_of pid items) (products s),
                  orders := (orders s)(uuid 0 \<mapsto> ord),
                  order_items := order_items s @ rows\<rparr>
         \<and> list_all2 (line_of s (uuid 0)) items rows
         \<and> map item_id rows = map uuid [1..<Suc (length items)]
         \<and> orders s (uuid 0) = None \<and> uid \<noteq> [] \<and> items \<noteq> [] \<and> users s uid \<noteq> None
         \<and> line_total rows \<noteq> NaN"
proof -
  from assms have ne: "uid \<noteq> []" "items \<noteq> []"
    by (auto simp: createOrder_def split: if_splits)
  from assms ne obtain u where u: "users s uid = Some u"
    by (auto simp: createOrder_def split: option.splits)
  from assms ne u obtain tot new where v: "validate_items s items (Num 0) [] = Inr (tot, new)"
    by (auto simp: createOrder_def split: sum.splits)
  let ?ord = "\<lparr>user_id = uid, status = ''pending'', total = tot,
                shipping_address = coalesce addr []\<rparr>"
  from assms ne u v have tx: "createOrder_tx uuid uid tot (coalesce addr []) new s = Inr s'"
    and r: "r = (uuid 0, orders s' (uuid 0))"
    by (auto simp: createOrder_def transaction_def split: sum.splits)
  from tx have fresh: "orders s (uuid 0) = None" and nan: "tot \<noteq> NaN"
    by (auto simp: createOrder_tx_def insert_order_def split: if_splits)
  let ?s1 = "s\<lparr>orders := (orders s)(uuid 0 \<mapsto> ?ord)\<rparr>"
  from tx fresh nan u have ins: "insert_items uuid (Suc 0) (uuid 0) new ?s1 = Inr s'"
    by (auto simp: createOrder_tx_def insert_order_def split: if_splits)
  from insert_items_Inr [OF ins] obtain rows where rows:
    "order_items s' = order_items s @ rows"
    "list_all2 (row_of (uuid 0)) new rows"
    "map item_id rows = map uuid [Suc 0..<Suc 0 + length new]"
    "products s' = shift_stock (\<lambda>pid. - qty_of pid new) (products s)"
    "orders s' = (orders s)(uuid 0 \<mapsto> ?ord)" "users s' = users s"
    by auto
  from validate_items_Inr [OF v] have new: "list_all2 (snapshot_of s) items new" "tot = line_total new"
    by (auto simp: line_total_def)
  have len: "length new = length items"
    using new(1) by (simp add: list_all2_lengthD)
  have tot: "tot = line_total rows"
    using new(2) row_of_line_total [OF rows(2)] by simp
  have q: "(\<lambda>pid. - qty_of pid new) = (\<lambda>pid. - qty_of pid items)"
    using snapshot_of_qty_of [OF new(1)] by simp
  have "s' = s\<lparr>products := shift_stock (\<lambda>pid. - qty_of pid items) (products s),
                orders := (orders s)(uuid 0 \<mapsto> ?ord),
                order_items := order_items s @ rows\<rparr>"
    using rows q by (intro db.equality) simp_all
  moreover have "r = (uuid 0, Some ?ord)"
    using r rows(5) by simp
  moreover note snapshot_row_line [OF new(1) rows(2)]
  moreover have "map item_id rows = map uuid [1..<Suc (length items)]"
    using rows(3) len by simp
  ultimately show ?thesis
    using fresh ne u nan unfolding tot by blast
qed

lemma fold_add_stock_eq:
  "fold (\<lambda>item. add_stock (quantity item) (product_id item)) rows s
     = s\<lparr>products := shift_stock (\<lambda>pid. qty_of pid rows) (products s)\<rparr>"
  by (rule db.equality) (simp_all add: fold_add_stock_products)

lemma cancelOrder_tx_eq:
  "cancelOrder_tx oid s =
     Inr (s\<lparr>products := shift_stock (\<lambda>pid. qty_of pid (order_rows s oid)) (products s),
            orders := (orders s)(oid := None),
            order_items := filter (\<lambda>r. order_id r \<noteq> oid) (order_items s)\<rparr>)"
  by (simp add: cancelOrder_tx_def Let_def fold_add_stock_eq delete_order_items_def
      delete_order_def order_rows_def)

lemma cancelOrder_eq:
  assumes "orders s oid = Some ord"
  shows "cancelOrder s oid =
     (if status ord = ''delivered'' then (s, Inl CannotCancelDelivered)
      else (s\<lparr>products := shift_stock (\<lambda>pid. qty_of pid (order_rows s oid)) (products s),
              orders := (orders s)(oid := None),
              order_items := filter (\<lambda>r. order_id r \<noteq> oid) (order_items s)\<rparr>, Inr ()))"
  using assms by (simp add: cancelOrder_def transaction_def cancelOrder_tx_eq)





lemma snapshot_of_foldl:
  "list_all2 (snapshot_of s) items new \<Longrightarrow>
     \<forall>t. foldl add_line t new = foldl (add_item s) t items"
  by (induction rule: list_all2_induct)
     (auto simp: snapshot_of_def add_line_def add_item_def split: option.splits)

lemma validate_items_bad:
  "item \<in> set items \<Longrightarrow> \<not> item_ok s item \<Longrightarrow> \<exists>e. validate_items s items tot acc = Inl e"
  by (induction items arbitrary: tot acc) (auto simp: item_ok_def split: option.splits)

lemma validate_items_first_insufficient:
  assumes "list_all (item_ok s) pre"
    and "products s (product_id item) = Some p" and "stock p < quantity item"
  shows "validate_items s (pre @ item # post) tot acc =
           Inl (InsufficientStock (''Insufficient stock for product: '' @ name p))"
  using assms
  by (induction pre arbitrary: tot acc) (auto simp: item_ok_def split: option.splits)

lemma snapshot_of_products:
  "list_all2 (snapshot_of s) items new \<Longrightarrow>
     list_all (\<lambda>i. products s (product_id i) \<noteq> None) new"
  by (induction rule: list_all2_induct) (auto simp: snapshot_of_def split: option.splits)

lemma createOrder_commits:
  assumes uid: "uid \<noteq> []" "users s uid \<noteq> None" and items: "items \<noteq> []"
    and ok: "list_all (item_ok s) items"
    and fresh: "fresh_ids s uuid (length items)"
    and nan: "double_total s items \<noteq> NaN"
  shows "\<exists>s' r. createOrder s uuid uid items addr = (s', Inr r)"
proof -
  from uid obtain u where u: "users s uid = Some u" by blast
  from validate_items_ok [OF ok] obtain t new where
    v: "validate_items s items (Num 0) [] = Inr (t, new)" by blast
  from validate_items_Inr [OF v] have snap: "list_all2 (snapshot_of s) items new"
    and t: "t = foldl add_line (Num 0) new" by simp_all
  from t nan have t_nan: "t \<noteq> NaN"
    using snapshot_of_foldl [OF snap] by (simp add: double_total_def)
  from snap have len: "length new = length items" by (simp add: list_all2_lengthD)
  let ?ord = "\<lparr>user_id = uid, status = ''pending'', total = t,
                shipping_address = coalesce addr []\<rparr>"
  let ?s1 = "s\<lparr>orders := (orders s)(uuid 0 \<mapsto> ?ord)\<rparr>"
  have a1: "orders ?s1 (uuid 0) \<noteq> None" by simp
  have a2: "list_all (\<lambda>i. products ?s1 (product_id i) \<noteq> None) new"
    using snapshot_of_products [OF snap] by simp
  have a3: "distinct (map uuid [Suc 0..<Suc 0 + length new])"
    using fresh by (simp add: fresh_ids_def len del: upt_Suc)
  have "\<forall>k \<in> set [1..<Suc (length items)]. uuid k \<notin> set (map item_id (order_items s))"
    using fresh unfolding fresh_ids_def list_all_iff by blast
  then have notin: "\<forall>k \<in> {Suc 0..<Suc 0 + length new}. uuid k \<notin> item_id ` set (order_items s)"
    by (simp add: len del: upt_Suc)
  have same: "order_items ?s1 = order_items s" by simp
  have a4: "uuid ` {Suc 0..<Suc 0 + length new} \<inter> item_id ` set (order_items ?s1) = {}"
    unfolding same using notin by blast
  have "\<exists>s'. insert_items uuid (Suc 0) (uuid 0) new ?s1 = Inr s'"
    by (rule insert_items_fresh [OF a1 a2 a3 a4])
  then obtain s' where ins: "insert_items uuid (Suc 0) (uuid 0) new ?s1 = Inr s'" ..
  from fresh have "orders s (uuid 0) = None" by (simp add: fresh_ids_def)
  with u ins t_nan have "createOrder_tx uuid uid t (coalesce addr []) new s = Inr s'"
    by (simp add: createOrder_tx_def insert_order_def)
  with uid items u v show ?thesis
    by (simp add: createOrder_def transaction_def)
qed

lemma no_orphan_createOrder:
  "no_orphan_items s \<Longrightarrow> no_orphan_items (fst (createOrder s uuid uid items addr))"
proof (cases "snd (createOrder s uuid uid items addr)")
  case (Inl e)
  assume "no_orphan_items s"
  with createOrder_failure [OF Inl] show ?thesis by simp
next
  case (Inr r)
  assume orph: "no_orphan_items s"
  from Inr have "createOrder s uuid uid items addr = (fst (createOrder s uuid uid items addr), Inr r)"
    by (metis prod.collapse)
  from createOrder_success [OF this] obtain rows ord where
    s1: "fst (createOrder s uuid uid items addr) =
           s\<lparr>products := shift_stock (\<lambda>pid. - qty_of pid items) (products s),
             orders := (orders s)(uuid 0 \<mapsto> ord),
             order_items := order_items s @ rows\<rparr>"
    and lines: "list_all2 (line_of s (uuid 0)) items rows"
    by blast
  from line_of_order_id [OF lines] orph show ?thesis
    unfolding s1 by (auto simp: no_orphan_items_def list_all_iff)
qed

lemma no_orphan_cancelOrder:
  "no_orphan_items s \<Longrightarrow> no_orphan_items (fst (cancelOrder s oid))"
proof (cases "orders s oid")
  case None
  assume "no_orphan_items s"
  with None show ?thesis by (simp add: cancelOrder_def)
next
  case (Some ord)
  assume "no_orphan_items s"
  then show ?thesis
    unfolding cancelOrder_eq [OF Some]
    by (auto simp: no_orphan_items_def list_all_iff)
qed

lemma no_orphan_updateStatus:
  "no_orphan_items s \<Longrightarrow> no_orphan_items (fst (updateStatus s oid st))"
  by (auto simp: updateStatus_def set_status_def Let_def no_orphan_items_def list_all_iff
      split: option.splits)

lemma no_orphan_adjustStock:
  "no_orphan_items s \<Longrightarrow> adjustStock s pid n = Some (s', a) \<Longrightarrow> no_orphan_items s'"
  by (auto simp: adjustStock_def set_stock_def no_orphan_items_def list_all_iff
      split: option.splits jsnum.splits if_splits)

lemma no_orphan_updateProduct:
  "no_orphan_items s \<Longrightarrow> no_orphan_items (fst (updateProduct s pid u))"
  by (auto simp: updateProduct_def Let_def no_orphan_items_def list_all_iff
      split: option.splits)

section \<open>Where the stock stays at or above zero\<close>

text \<open>
  The stock route never leaves a stock below zero. The order route does not either when no two
  items of the request name the same product, and the cancel route when no row of the order
  has a quantity below zero.
\<close>

lemma adjustStock_stock_nonneg:
  "stock_nonneg s \<Longrightarrow> adjustStock s pid n = Some (s', a) \<Longrightarrow> stock_nonneg s'"
  by (auto simp: stock_nonneg_def adjustStock_def set_stock_def
      split: option.splits jsnum.splits if_splits)

lemma qty_of_unnamed:
  "pid \<notin> product_id ` set items \<Longrightarrow> qty_of pid items = 0"
  by (induction items) auto

lemma qty_of_distinct_le:
  assumes "distinct (map product_id items)"
    and "\<forall>i \<in> set items. product_id i = pid \<longrightarrow> quantity i \<le> m"
    and "0 \<le> m"
  shows "qty_of pid items \<le> m"
  using assms
proof (induction items)
  case Nil
  then show ?case by simp
next
  case (Cons i items)
  show ?case
  proof (cases "product_id i = pid")
    case True
    with Cons.prems(1) have "pid \<notin> product_id ` set items" by auto
    then have "qty_of pid items = 0" by (rule qty_of_unnamed)
    with True Cons.prems(2) show ?thesis by simp
  next
    case False
    with Cons show ?thesis by auto
  qed
qed

lemma line_of_item_ok:
  "list_all2 (line_of s oid) items rows \<Longrightarrow> list_all (item_ok s) items"
  by (induction rule: list_all2_induct) (auto simp: line_of_def item_ok_def split: option.splits)

lemma createOrder_stock_nonneg:
  assumes nn: "stock_nonneg s" and dist: "distinct (map product_id items)"
  shows "stock_nonneg (fst (createOrder s uuid uid items addr))"
proof (cases "snd (createOrder s uuid uid items addr)")
  case (Inl e)
  with createOrder_failure [OF Inl] nn show ?thesis by simp
next
  case (Inr r)
  then have "createOrder s uuid uid items addr = (fst (createOrder s uuid uid items addr), Inr r)"
    by (simp add: prod_eq_iff)
  from createOrder_success [OF this] obtain rows ord where
    s1: "fst (createOrder s uuid uid items addr) =
           s\<lparr>products := shift_stock (\<lambda>pid. - qty_of pid items) (products s),
             orders := (orders s)(uuid 0 \<mapsto> ord),
             order_items := order_items s @ rows\<rparr>"
    and lines: "list_all2 (line_of s (uuid 0)) items rows"
    by blast
  have ok: "\<forall>i \<in> set items. item_ok s i"
    using line_of_item_ok [OF lines] by (simp add: list_all_iff)
  have "0 \<le> stock p - qty_of pid items" if p: "products s pid = Some p" for pid p
  proof -
    from nn p have "0 \<le> stock p" by (simp add: stock_nonneg_def)
    moreover have "\<forall>i \<in> set items. product_id i = pid \<longrightarrow> quantity i \<le> stock p"
      using ok p by (auto simp: item_ok_def)
    ultimately have "qty_of pid items \<le> stock p"
      using qty_of_distinct_le [OF dist] by blast
    then show ?thesis by simp
  qed
  then show ?thesis
    unfolding s1 by (auto simp: stock_nonneg_def shift_stock_def)
qed

lemma qty_of_nonneg:
  "\<forall>r \<in> set rows. 0 \<le> quantity r \<Longrightarrow> 0 \<le> qty_of pid rows"
  by (induction rows) auto

lemma cancelOrder_stock_nonneg:
  assumes nn: "stock_nonneg s" and pos: "\<forall>r \<in> set (order_rows s oid). 0 \<le> quantity r"
  shows "stock_nonneg (fst (cancelOrder s oid))"
proof (cases "orders s oid")
  case None
  with nn show ?thesis by (simp add: cancelOrder_def)
next
  case (Some ord)
  have "0 \<le> stock p + qty_of pid (order_rows s oid)" if "products s pid = Some p" for pid p
    using that nn qty_of_nonneg [OF pos, of pid] by (simp add: stock_nonneg_def add_nonneg_nonneg)
  with nn show ?thesis
    unfolding cancelOrder_eq [OF Some, folded order_rows_def]
    by (auto simp: stock_nonneg_def shift_stock_def)
qed

section \<open>Requests one after another\<close>

text \<open>
  With \<open>n\<close> pieces in stock, \<open>n + k\<close> requests for one piece each, served one after
  another with new ids: the first \<open>n\<close> are answered with success, the other \<open>k\<close> with
  InsufficientStock, and the stock is zero at the end.
\<close>

lemma place_orders_sold_out:
  assumes "uid \<noteq> []" "users s uid \<noteq> None" "products s pid = Some p" "stock p \<le> 0"
  shows "place_orders s gens uid [\<lparr>product_id = pid, quantity = 1\<rparr>] =
           (s, replicate (length gens)
                 (Inl (InsufficientStock (''Insufficient stock for product: '' @ name p))))"
proof (induction gens)
  case Nil
  show ?case by simp
next
  case (Cons uuid later)
  have "createOrder s uuid uid [\<lparr>product_id = pid, quantity = 1\<rparr>] None =
          (s, Inl (InsufficientStock (''Insufficient stock for product: '' @ name p)))"
    using assms by (auto simp: createOrder_def)
  with Cons.IH show ?case by simp
qed

lemma place_orders_serial:
  assumes "uid \<noteq> []" "users s uid \<noteq> None"
    and "products s pid = Some p" "stock p = int n"
    and "distinct (map (\<lambda>u. u 0) gens)" "\<forall>u \<in> set gens. orders s (u 0) = None"
    and "distinct (map (\<lambda>u. u 1) gens)" "\<forall>u \<in> set gens. u 1 \<notin> item_id ` set (order_items s)"
    and "length gens = n + k"
  shows "\<exists>s' won. place_orders s gens uid [\<lparr>product_id = pid, quantity = 1\<rparr>] =
           (s', map Inr won @ replicate k
                 (Inl (InsufficientStock (''Insufficient stock for product: '' @ name p))))
         \<and> length won = n
         \<and> products s' pid = Some (p\<lparr>stock := 0\<rparr>)"
  using assms
proof (induction n arbitrary: s p gens)
  case 0
  from 0 have "p\<lparr>stock := 0\<rparr> = p" by simp
  with place_orders_sold_out [OF "0.prems"(1,2,3), of gens] "0.prems"(4,9) "0.prems"(3)
  show ?case by simp
next
  case (Suc n)
  from Suc.prems(9) obtain uuid later where gens: "gens = uuid # later"
    by (cases gens) auto
  let ?items = "[\<lparr>product_id = pid, quantity = 1\<rparr>]"
  have ok: "list_all (item_ok s) ?items"
    using Suc.prems(3,4) by (simp add: item_ok_def)
  have fresh: "fresh_ids s uuid (length ?items)"
    using Suc.prems(6,8) by (auto simp: fresh_ids_def gens)
  have nan: "double_total s ?items \<noteq> NaN"
    using Suc.prems(3) by (simp add: double_total_def add_item_def)
  from createOrder_commits [OF Suc.prems(1,2) _ ok fresh nan, of None] obtain s1 r where
    c: "createOrder s uuid uid ?items None = (s1, Inr r)" by auto
  from createOrder_success [OF c] obtain rows ord where
    s1: "s1 = s\<lparr>products := shift_stock (\<lambda>x. - qty_of x ?items) (products s),
                  orders := (orders s)(uuid 0 \<mapsto> ord),
                  order_items := order_items s @ rows\<rparr>"
    and ids: "map item_id rows = map uuid [1..<Suc (length ?items)]"
    by blast
  have "set (map item_id rows) = {uuid 1}"
    unfolding ids by simp
  then have rows_ids: "item_id ` set rows = {uuid 1}"
    by simp
  let ?p1 = "p\<lparr>stock := int n\<rparr>"
  have a1: "users s1 uid \<noteq> None" using Suc.prems(2) by (simp add: s1)
  have a2: "products s1 pid = Some ?p1"
    using Suc.prems(3,4) by (simp add: s1 shift_stock_def)
  have a3: "stock ?p1 = int n" by simp
  have a4: "distinct (map (\<lambda>u. u 0) later)" and a6: "distinct (map (\<lambda>u. u 1) later)"
    using Suc.prems(5,7) by (simp_all add: gens)
  have a5: "\<forall>u \<in> set later. orders s1 (u 0) = None"
    using Suc.prems(5,6) by (auto simp: gens s1 image_iff)
  have a7: "\<forall>u \<in> set later. u 1 \<notin> item_id ` set (order_items s1)"
    using Suc.prems(7,8) rows_ids by (auto simp: gens s1 image_Un image_iff)
  have a8: "length later = n + k" using Suc.prems(9) by (simp add: gens)
  from Suc.IH [OF Suc.prems(1) a1 a2 a3 a4 a5 a6 a7 a8] obtain s' won where
    rest: "place_orders s1 later uid ?items =
           (s', map Inr won @ replicate k
                 (Inl (InsufficientStock (''Insufficient stock for product: '' @ name ?p1))))"
    and won: "length won = n" and final: "products s' pid = Some (?p1\<lparr>stock := 0\<rparr>)"
    by blast
  have "place_orders s gens uid ?items =
          (s', map Inr (r # won) @ replicate k
                 (Inl (InsufficientStock (''Insufficient stock for product: '' @ name p))))"
    using c rest by (simp add: gens)
  moreover have "length (r # won) = Suc n" using won by simp
  moreover have "products s' pid = Some (p\<lparr>stock := 0\<rparr>)" using final by simp
  ultimately show ?case by blast
qed

section \<open>The first item that fails, and sums that do not round\<close>

lemma validate_items_first_failure:
  "\<not> list_all (item_ok s) items \<Longrightarrow>
     \<exists>pre bad post. items = pre @ bad # post \<and> list_all (item_ok s) pre \<and> \<not> item_ok s bad
       \<and> validate_items s items tot acc =
           Inl (case products s (product_id bad) of
                  None \<Rightarrow> NotFound (''Product not found: '' @ product_id bad)
                | Some b \<Rightarrow> InsufficientStock (''Insufficient stock for product: '' @ name b))"
proof (induction items arbitrary: tot acc)
  case Nil
  then show ?case by simp
next
  case (Cons i rest)
  show ?case
  proof (cases "item_ok s i")
    case True
    then obtain p where p: "products s (product_id i) = Some p" "\<not> stock p < quantity i"
      by (auto simp: item_ok_def split: option.splits)
    from True Cons.prems have "\<not> list_all (item_ok s) rest" by simp
    from Cons.IH [OF this] obtain pre bad post where
      d: "rest = pre @ bad # post" "list_all (item_ok s) pre" "\<not> item_ok s bad"
      and v: "validate_items s rest (js_add tot (js_mul (price p) (of_int (quantity i))))
                (acc @ [\<lparr>product_id = product_id i, quantity = quantity i, item_price = price p\<rparr>]) =
           Inl (case products s (product_id bad) of
                  None \<Rightarrow> NotFound (''Product not found: '' @ product_id bad)
                | Some b \<Rightarrow> InsufficientStock (''Insufficient stock for product: '' @ name b))"
      by blast
    have "i # rest = (i # pre) @ bad # post" using d(1) by simp
    moreover have "list_all (item_ok s) (i # pre)" using True d(2) by simp
    moreover have "validate_items s (i # rest) tot acc =
           Inl (case products s (product_id bad) of
                  None \<Rightarrow> NotFound (''Product not found: '' @ product_id bad)
                | Some b \<Rightarrow> InsufficientStock (''Insufficient stock for product: '' @ name b))"
      using p v by simp
    ultimately show ?thesis using d(3) by blast
  next
    case False
    have "validate_items s (i # rest) tot acc =
           Inl (case products s (product_id i) of
                  None \<Rightarrow> NotFound (''Product not found: '' @ product_id i)
                | Some b \<Rightarrow> InsufficientStock (''Insufficient stock for product: '' @ name b))"
      using False by (auto simp: item_ok_def split: option.splits)
    moreover have "i # rest = [] @ i # rest" "list_all (item_ok s) []" by simp_all
    ultimately show ?thesis using False by blast
  qed
qed



section \<open>Evaluating the routes on the shop\<close>

lemma to_double_above_2_53: "to_double 9007199254740993 = Num 9007199254740992"
  by (subst to_double_eval [where e = 53]) (simp_all add: round_even_def Let_def)




lemma dime_fields [simp]: "name dime = ''Test Sweet''" "stock dime = 10"
  by (simp_all add: dime_def)

lemmas route_defs = createOrder_def createOrder_tx_def insert_order_def insert_order_item_def
  add_stock_def transaction_def coalesce_def cancelOrder_def cancelOrder_tx_def
  delete_order_def delete_order_items_def updateStatus_def set_status_def validStatuses_def
  getOrder_def js_mul_def

lemmas shop_defs = shop_def laptop_def shirt_def customer_def uuids_def line_def oversold_def
  shop_open_def shop_delivered_def five_laptops_def big_shop_def

lemma shop_two_items_same_product:
  "createOrder shop (uuids [''o1'', ''i1'', ''i2'']) ''u1'' [line ''p1'' 6, line ''p1'' 6] None =
     (oversold, Inr (''o1'', Some \<lparr>user_id = ''u1'', status = ''pending'', total = Num 12000,
                                   shipping_address = []\<rparr>))"
  by (simp add: route_defs shop_defs)




section \<open>Stock adjustment\<close>

text \<open>
  C9, as the claim has it: for every stock \<open>s0\<close> and every integer delta the stock route
  stores and answers \<open>s0 + delta\<close>. The route adds doubles. With \<open>2^53 - 1\<close> laptops in
  stock and a delta of 2 the exact sum \<open>2^53 + 1\<close> is no double; the route stores and answers
  \<open>2^53\<close>.
\<close>

theorem adjustStock_counterexample:
  "map_option stock (products big_shop ''p1'') = Some 9007199254740991
   \<and> adjustStock big_shop ''p1'' 2 =
       Some (big_shop\<lparr>products := [''p2'' \<mapsto> shirt,
                                      ''p1'' \<mapsto> laptop\<lparr>stock := 9007199254740992\<rparr>]\<rparr>,
             Inr (''p1'', 9007199254740992))
   \<and> (9007199254740991 :: int) + 2 \<noteq> 9007199254740992"
  by (simp add: adjustStock_def set_stock_def shop_defs to_double_above_2_53)

text \<open>
  C9, amended. For an unknown id the stock route answers NotFound. For a product with stock
  \<open>s0\<close> and an integer delta it computes the new stock as the sum of \<open>s0\<close> and delta in
  doubles. When that sum is below zero (minus infinity included) it answers InsufficientStock
  and the state is what it was. When it is a number of zero or more, the route stores it,
  answers with it, and the product's stock is that number afterwards, nothing else changed.
  The sum in doubles is \<open>s0 + delta\<close> itself whenever \<open>s0\<close>, delta and \<open>s0 + delta\<close> are
  doubles, and every integer up to \<open>2^53\<close> in absolute value is one. (A sum of plus infinity
  is stored as such by the route; the model has no stock for it and no result.)
\<close>

theorem adjustStock_contract:
  "(products s pid = None \<longrightarrow>
      adjustStock s pid delta = Some (s, Inl (NotFound ''Product not found'')))
   \<and> (\<forall>p. products s pid = Some p \<longrightarrow>
         (case js_add (to_double (of_int (stock p))) (to_double (of_int delta)) of
            Num newStock \<Rightarrow>
              if newStock < 0
              then adjustStock s pid delta = Some (s, Inl (InsufficientStock ''Insufficient stock''))
              else adjustStock s pid delta =
                     Some (s\<lparr>products := (products s)(pid \<mapsto> p\<lparr>stock := \<lfloor>newStock\<rfloor>\<rparr>)\<rparr>,
                           Inr (pid, \<lfloor>newStock\<rfloor>))
          | NegInf \<Rightarrow>
              adjustStock s pid delta = Some (s, Inl (InsufficientStock ''Insufficient stock''))
          | PosInf \<Rightarrow> adjustStock s pid delta = None
          | NaN \<Rightarrow> adjustStock s pid delta = None)
       \<and> (is_double (stock p) \<and> is_double delta \<and> is_double (stock p + delta) \<longrightarrow>
            (if stock p + delta < 0
             then adjustStock s pid delta = Some (s, Inl (InsufficientStock ''Insufficient stock''))
             else adjustStock s pid delta =
                    Some (s\<lparr>products := (products s)(pid \<mapsto> p\<lparr>stock := stock p + delta\<rparr>)\<rparr>,
                          Inr (pid, stock p + delta)))))
   \<and> (\<forall>n. \<bar>n\<bar> \<le> 2 ^ 53 \<longrightarrow> is_double n)"
proof (intro conjI allI impI)
  assume "products s pid = None"
  then show "adjustStock s pid delta = Some (s, Inl (NotFound ''Product not found''))"
    by (simp add: adjustStock_def)
next
  fix p assume p: "products s pid = Some p"
  then show "case js_add (to_double (of_int (stock p))) (to_double (of_int delta)) of
            Num newStock \<Rightarrow>
              if newStock < 0
              then adjustStock s pid delta = Some (s, Inl (InsufficientStock ''Insufficient stock''))
              else adjustStock s pid delta =
                     Some (s\<lparr>products := (products s)(pid \<mapsto> p\<lparr>stock := \<lfloor>newStock\<rfloor>\<rparr>)\<rparr>,
                           Inr (pid, \<lfloor>newStock\<rfloor>))
          | NegInf \<Rightarrow>
              adjustStock s pid delta = Some (s, Inl (InsufficientStock ''Insufficient stock''))
          | PosInf \<Rightarrow> adjustStock s pid delta = None
          | NaN \<Rightarrow> adjustStock s pid delta = None"
    by (simp add: adjustStock_def set_stock_def split: jsnum.split)
next
  fix p assume p: "products s pid = Some p"
    and d: "is_double (stock p) \<and> is_double delta \<and> is_double (stock p + delta)"
  from d have "js_add (to_double (of_int (stock p))) (to_double (of_int delta))
      = Num (of_int (stock p + delta))"
    by (simp add: is_double_def)
  with p show "if stock p + delta < 0
             then adjustStock s pid delta = Some (s, Inl (InsufficientStock ''Insufficient stock''))
             else adjustStock s pid delta =
                    Some (s\<lparr>products := (products s)(pid \<mapsto> p\<lparr>stock := stock p + delta\<rparr>)\<rparr>,
                          Inr (pid, stock p + delta))"
    by (simp add: adjustStock_def set_stock_def del: of_int_add)
next
  fix n :: int assume "\<bar>n\<bar> \<le> 2 ^ 53"
  then show "is_double n" by (rule is_double_small)
qed

theorem adjustStock_contract_witness:
  "products shop ''p1'' = Some laptop
   \<and> is_double (stock laptop) \<and> is_double (- 3) \<and> is_double (stock laptop + - 3)
   \<and> adjustStock shop ''p1'' (- 3) =
       Some (shop\<lparr>products := [''p2'' \<mapsto> shirt, ''p1'' \<mapsto> laptop\<lparr>stock := 7\<rparr>]\<rparr>,
             Inr (''p1'', 7))
   \<and> adjustStock shop ''p1'' (- 20) = Some (shop, Inl (InsufficientStock ''Insufficient stock''))
   \<and> adjustStock shop ''nope'' 5 = Some (shop, Inl (NotFound ''Product not found''))"
proof -
  have p: "products shop ''p1'' = Some laptop" by (simp add: shop_defs)
  have n: "products shop ''nope'' = None" by (simp add: shop_defs)
  have d3: "is_double (stock laptop) \<and> is_double (- 3) \<and> is_double (stock laptop + - 3)"
    using adjustStock_contract [of shop "''p1''" 0] by (simp add: laptop_def)
  have d20: "is_double (stock laptop) \<and> is_double (- 20) \<and> is_double (stock laptop + - 20)"
    using adjustStock_contract [of shop "''p1''" 0] by (simp add: laptop_def)
  from adjustStock_contract [of shop "''p1''" "- 3"] p d3
  have a: "adjustStock shop ''p1'' (- 3) =
       Some (shop\<lparr>products := [''p2'' \<mapsto> shirt, ''p1'' \<mapsto> laptop\<lparr>stock := 7\<rparr>]\<rparr>,
             Inr (''p1'', 7))"
    by (simp add: shop_defs)
  from adjustStock_contract [of shop "''p1''" "- 20"] p d20
  have b: "adjustStock shop ''p1'' (- 20) = Some (shop, Inl (InsufficientStock ''Insufficient stock''))"
    by (simp add: laptop_def)
  from adjustStock_contract [of shop "''nope''" 5] n
  have c: "adjustStock shop ''nope'' 5 = Some (shop, Inl (NotFound ''Product not found''))"
    by simp
  from p d3 a b c show ?thesis by simp
qed

section \<open>Stock below zero\<close>

text \<open>
  C1. The stock of every product stays at or above zero under the stock route, the creation
  and the cancellation of orders. The order route breaks this on a request that names one
  product in two items: the loop compares each quantity with the stock that the catalog has
  before the transaction, and the transaction then subtracts both. In the shop, with ten
  laptops in stock, a request for six laptops and six laptops again is answered with success
  and leaves a stock of \<open>-2\<close>.
\<close>

theorem createOrder_duplicate_items_oversell:
  "map_option stock (products shop ''p1'') = Some 10
   \<and> snd (createOrder shop (uuids [''o1'', ''i1'', ''i2'']) ''u1''
           [line ''p1'' 6, line ''p1'' 6] None)
       = Inr (''o1'', Some \<lparr>user_id = ''u1'', status = ''pending'', total = Num 12000,
                             shipping_address = []\<rparr>)
   \<and> map_option stock
         (products (fst (createOrder shop (uuids [''o1'', ''i1'', ''i2'']) ''u1''
                           [line ''p1'' 6, line ''p1'' 6] None)) ''p1'')
       = Some (- 2)"
  by (simp add: shop_two_items_same_product) (simp add: shop_defs)

section \<open>The status of an order\<close>

text \<open>
  C2, as the claim has it: a delivered or cancelled order keeps its status under the status
  route. It does not: the route never reads the status there is. The delivered order of the
  shop is pending again after one request.
\<close>

theorem updateStatus_terminal_counterexample:
  "map_option status (orders shop_delivered ''o1'') = Some ''delivered''
   \<and> ''pending'' \<in> set validStatuses
   \<and> map_option status (orders (fst (updateStatus shop_delivered ''o1'' ''pending'')) ''o1'')
       = Some ''pending''"
  by (simp add: route_defs shop_defs)

text \<open>
  C2, amended. For every order that exists, whatever its status, and every one of the five
  recognized values, the status route succeeds, stores the requested value as the order's
  status and changes nothing else; it answers with the updated row.
\<close>

theorem updateStatus_sets_any_status:
  assumes "orders s oid = Some ord" and "st \<in> set validStatuses"
  shows "updateStatus s oid st =
           (s\<lparr>orders := (orders s)(oid \<mapsto> ord\<lparr>status := st\<rparr>)\<rparr>, Inr (Some (ord\<lparr>status := st\<rparr>)))"
proof -
  from assms(2) have "st \<noteq> []"
    by (auto simp: validStatuses_def)
  with assms show ?thesis
    by (simp add: updateStatus_def set_status_def Let_def)
qed

theorem updateStatus_sets_any_status_witness:
  "orders shop_delivered ''o1'' = Some (five_laptops\<lparr>status := ''delivered''\<rparr>)
   \<and> ''pending'' \<in> set validStatuses
   \<and> updateStatus shop_delivered ''o1'' ''pending'' = (shop_open, Inr (Some five_laptops))"
proof -
  have h1: "orders shop_delivered ''o1'' = Some (five_laptops\<lparr>status := ''delivered''\<rparr>)"
    by (simp add: shop_defs)
  have h2: "''pending'' \<in> set validStatuses"
    by (simp add: validStatuses_def)
  from updateStatus_sets_any_status [OF h1 h2] h1 h2 show ?thesis
    by (simp add: shop_defs)
qed

section \<open>Cancelling an order\<close>



section \<open>Creating an order\<close>

text \<open>
  C4, as the claim has it: a request in which some product exists with less stock than its
  item asks is answered with InsufficientStock naming that product. The loop answers at the
  first item that fails, and the route checks the user before: in the shop, a request for a
  product that does not exist and then for a hundred laptops is answered with NotFound.
\<close>

theorem createOrder_insufficient_counterexample:
  "line ''p1'' 100 \<in> set [line ''nope'' 1, line ''p1'' 100]
   \<and> products shop (product_id (line ''p1'' 100)) = Some laptop
   \<and> stock laptop < quantity (line ''p1'' 100)
   \<and> createOrder shop (uuids [''o1'', ''i1'', ''i2'']) ''u1''
         [line ''nope'' 1, line ''p1'' 100] None
       = (shop, Inl (NotFound ''Product not found: nope''))"
  by (simp add: route_defs shop_defs)

text \<open>
  C4, amended. A request in which some item names a product that exists with less stock than
  the item asks fails, and the state after it is the state before it: no stock changed, no
  order and no row added. The answer is the one of the first check that fails: MissingFields
  when the user id is empty; User not found when there is no such user; otherwise the answer
  of the loop for the first item of the list that fails its checks, which is Product not found
  with the id when the item's product is missing and InsufficientStock with the product's name
  when its stock is below the quantity. So the answer is InsufficientStock naming the product
  of the claim when the user exists and every item before this one passes its checks.
\<close>

theorem createOrder_insufficient_atomic:
  assumes "item \<in> set items"
    and "products s (product_id item) = Some p"
    and "stock p < quantity item"
  shows "fst (createOrder s uuid uid items addr) = s
       \<and> (uid = [] \<longrightarrow> snd (createOrder s uuid uid items addr) = Inl MissingFields)
       \<and> (uid \<noteq> [] \<and> users s uid = None \<longrightarrow>
            snd (createOrder s uuid uid items addr) = Inl (NotFound ''User not found''))
       \<and> (uid \<noteq> [] \<and> users s uid \<noteq> None \<longrightarrow>
            (\<exists>pre bad post. items = pre @ bad # post \<and> list_all (item_ok s) pre
               \<and> \<not> item_ok s bad
               \<and> snd (createOrder s uuid uid items addr) =
                   Inl (case products s (product_id bad) of
                          None \<Rightarrow> NotFound (''Product not found: '' @ product_id bad)
                        | Some b \<Rightarrow>
                            InsufficientStock (''Insufficient stock for product: '' @ name b))))
       \<and> (\<forall>pre post. uid \<noteq> [] \<and> users s uid \<noteq> None \<and> items = pre @ item # post
              \<and> list_all (item_ok s) pre \<longrightarrow>
            snd (createOrder s uuid uid items addr)
              = Inl (InsufficientStock (''Insufficient stock for product: '' @ name p)))"
proof -
  from assms(2,3) have bad: "\<not> item_ok s item"
    by (simp add: item_ok_def)
  with assms(1) have not_all: "\<not> list_all (item_ok s) items"
    by (auto simp: list_all_iff)
  from assms(1) have ne: "items \<noteq> []" by auto
  from validate_items_first_failure [OF not_all, of "Num 0" "[]"] obtain pre bad post where
    d: "items = pre @ bad # post" "list_all (item_ok s) pre" "\<not> item_ok s bad"
    and v: "validate_items s items (Num 0) [] =
           Inl (case products s (product_id bad) of
                  None \<Rightarrow> NotFound (''Product not found: '' @ product_id bad)
                | Some b \<Rightarrow> InsufficientStock (''Insufficient stock for product: '' @ name b))"
    by blast
  have missing: "snd (createOrder s uuid uid items addr) = Inl MissingFields" if "uid = []"
    using that by (simp add: createOrder_def)
  have nouser: "snd (createOrder s uuid uid items addr) = Inl (NotFound ''User not found'')"
    if "uid \<noteq> []" "users s uid = None"
    using that ne by (simp add: createOrder_def)
  have loop: "snd (createOrder s uuid uid items addr) =
                   Inl (case products s (product_id bad) of
                          None \<Rightarrow> NotFound (''Product not found: '' @ product_id bad)
                        | Some b \<Rightarrow>
                            InsufficientStock (''Insufficient stock for product: '' @ name b))"
    if "uid \<noteq> []" "users s uid \<noteq> None"
    using that ne v by (auto simp: createOrder_def)
  have fails: "\<exists>e. snd (createOrder s uuid uid items addr) = Inl e"
    using missing nouser loop by (cases "uid = []"; cases "users s uid = None") auto
  then have same: "fst (createOrder s uuid uid items addr) = s"
    using createOrder_failure by blast
  have first: "snd (createOrder s uuid uid items addr)
              = Inl (InsufficientStock (''Insufficient stock for product: '' @ name p))"
    if "uid \<noteq> []" "users s uid \<noteq> None" "items = pre' @ item # post'"
       "list_all (item_ok s) pre'"
    for pre' post'
    using that ne validate_items_first_insufficient [OF that(4) assms(2,3)]
    by (auto simp: createOrder_def)
  from same missing nouser loop d first show ?thesis by blast
qed

theorem createOrder_insufficient_atomic_witness:
  "line ''p1'' 100 \<in> set [line ''p2'' 1, line ''p1'' 100]
   \<and> products shop (product_id (line ''p1'' 100)) = Some laptop
   \<and> stock laptop < quantity (line ''p1'' 100)
   \<and> createOrder shop (uuids [''o1'', ''i1'', ''i2'']) ''u1''
         [line ''p2'' 1, line ''p1'' 100] None
       = (shop, Inl (InsufficientStock ''Insufficient stock for product: Test Laptop''))"
proof -
  have h1: "line ''p1'' 100 \<in> set [line ''p2'' 1, line ''p1'' 100]" by simp
  have h2: "products shop (product_id (line ''p1'' 100)) = Some laptop"
    by (simp add: shop_defs)
  have h3: "stock laptop < quantity (line ''p1'' 100)"
    by (simp add: shop_defs)
  have pre: "list_all (item_ok shop) [line ''p2'' 1]"
    by (simp add: item_ok_def shop_defs)
  have u: "''u1'' \<noteq> []" "users shop ''u1'' \<noteq> None"
    by (simp_all add: shop_defs)
  note inst = createOrder_insufficient_atomic [OF h1 h2 h3,
      of "uuids [''o1'', ''i1'', ''i2'']" "''u1''" None]
  from inst have a: "fst (createOrder shop (uuids [''o1'', ''i1'', ''i2'']) ''u1''
         [line ''p2'' 1, line ''p1'' 100] None) = shop"
    by blast
  from inst u pre
  have b: "snd (createOrder shop (uuids [''o1'', ''i1'', ''i2'']) ''u1''
         [line ''p2'' 1, line ''p1'' 100] None)
       = Inl (InsufficientStock (''Insufficient stock for product: '' @ name laptop))"
    by (metis append_Cons append_Nil)
  from a b h1 h2 h3 show ?thesis
    by (simp add: prod_eq_iff laptop_def)
qed







section \<open>Creating and cancelling\<close>



section \<open>Changing a product\<close>

text \<open>
  C8. Whatever the product route changes, a price included, the orders and the rows of
  order_items after it are the ones before it: every stored total and every stored row price
  is unchanged, and reading any order gives what it gave before.
\<close>

theorem updateProduct_keeps_snapshots:
  "orders (fst (updateProduct s pid u)) = orders s
   \<and> order_items (fst (updateProduct s pid u)) = order_items s
   \<and> getOrder (fst (updateProduct s pid u)) oid = getOrder s oid"
  by (simp add: updateProduct_def getOrder_def Let_def split: option.split)

end
